theory Spec2Isabelle
  imports Main
begin

section \<open>The weather server: locations, time buckets and weather lines\<close>

text \<open>
  The development embeds the tool functions of
  \<^verbatim>\<open>src/mcp-server/04-weather-server/server-mcp-sse-weather.py\<close>:
  \<^verbatim>\<open>_get_time_bucket\<close>, \<^verbatim>\<open>_normalize_location\<close>,
  \<^verbatim>\<open>list_supported_locations\<close>, \<^verbatim>\<open>get_weather_at_location\<close> and
  \<^verbatim>\<open>get_weather_for_multiple_locations\<close>, together with the two tables
  \<^verbatim>\<open>LOCATIONS\<close> and \<^verbatim>\<open>STATIC_WEATHER\<close>.
\<close>

subsection \<open>Python strings\<close>

text \<open>
  A Python \<^verbatim>\<open>str\<close> is a sequence of Unicode code points, so it is a list of
  natural numbers here; \<open>==\<close> on \<^verbatim>\<open>str\<close> is equality of these lists. A literal
  of the source is written \<open>str ''...''\<close>: all literals of the source are ASCII.
\<close>

type_synonym codepoint = nat
type_synonym pystr = "codepoint list"

definition str :: "string \<Rightarrow> pystr" where
  "str s = map of_char s"

text \<open>
  \<^verbatim>\<open>str.strip\<close>, \<^verbatim>\<open>str.lower\<close>, \<^verbatim>\<open>str.upper\<close> and \<^verbatim>\<open>str.title\<close> read
  the Unicode Character Database of the interpreter. The database is not part of the
  repository, so it is a parameter: the full case mappings of a code point (one to three
  code points each), and the properties Cased, Case_Ignorable and whitespace
  (\<^verbatim>\<open>str.isspace\<close> of the one-character string).
\<close>

record ucd =
  to_lower_full :: "codepoint \<Rightarrow> pystr"
  to_upper_full :: "codepoint \<Rightarrow> pystr"
  to_title_full :: "codepoint \<Rightarrow> pystr"
  is_cased :: "codepoint \<Rightarrow> bool"
  is_case_ignorable :: "codepoint \<Rightarrow> bool"
  is_whitespace :: "codepoint \<Rightarrow> bool"

text \<open>\<^verbatim>\<open>s.strip()\<close> removes the whitespace code points at both ends.\<close>

definition str_lstrip :: "ucd \<Rightarrow> pystr \<Rightarrow> pystr" where
  "str_lstrip u s = dropWhile (is_whitespace u) s"

definition str_rstrip :: "ucd \<Rightarrow> pystr \<Rightarrow> pystr" where
  "str_rstrip u s = rev (dropWhile (is_whitespace u) (rev s))"

definition str_strip :: "ucd \<Rightarrow> pystr \<Rightarrow> pystr" where
  "str_strip u s = str_rstrip u (str_lstrip u s)"

text \<open>
  \<^verbatim>\<open>s.lower()\<close> maps every code point through its full lower-case mapping, except
  U+03A3 (capital sigma), which becomes U+03C2 when it ends a word (a cased code point
  before it and none after it, case-ignorable code points skipped) and U+03C3
  otherwise. \<open>seen\<close> holds the code points to the left, the nearest first, and
  \<open>rest\<close> those to the right.
\<close>

definition handle_capital_sigma :: "ucd \<Rightarrow> pystr \<Rightarrow> pystr \<Rightarrow> codepoint" where
  "handle_capital_sigma u seen rest =
     (let final_sigma =
            (case dropWhile (is_case_ignorable u) seen of
               [] \<Rightarrow> False
             | c # _ \<Rightarrow> is_cased u c);
          final_sigma' =
            (if final_sigma
             then (case dropWhile (is_case_ignorable u) rest of
                     [] \<Rightarrow> True
                   | c # _ \<Rightarrow> \<not> is_cased u c)
             else False)
      in if final_sigma' then 0x3C2 else 0x3C3)"

definition lower_ucs4 :: "ucd \<Rightarrow> pystr \<Rightarrow> codepoint \<Rightarrow> pystr \<Rightarrow> pystr" where
  "lower_ucs4 u seen c rest =
     (if c = 0x3A3 then [handle_capital_sigma u seen rest] else to_lower_full u c)"

fun do_lower :: "ucd \<Rightarrow> pystr \<Rightarrow> pystr \<Rightarrow> pystr" where
  "do_lower u seen [] = []"
| "do_lower u seen (c # rest) =
     lower_ucs4 u seen c rest @ do_lower u (c # seen) rest"

definition str_lower :: "ucd \<Rightarrow> pystr \<Rightarrow> pystr" where
  "str_lower u s = do_lower u [] s"

text \<open>\<^verbatim>\<open>s.upper()\<close> maps every code point through its full upper-case mapping.\<close>

definition str_upper :: "ucd \<Rightarrow> pystr \<Rightarrow> pystr" where
  "str_upper u s = concat (map (to_upper_full u) s)"

text \<open>
  \<^verbatim>\<open>s.title()\<close> walks the string with one flag, whether the previous code point
  is cased: after a cased code point the next one is lower-cased, otherwise it is
  title-cased.
\<close>

fun do_title :: "ucd \<Rightarrow> bool \<Rightarrow> pystr \<Rightarrow> pystr \<Rightarrow> pystr" where
  "do_title u previous_is_cased seen [] = []"
| "do_title u previous_is_cased seen (c # rest) =
     (if previous_is_cased then lower_ucs4 u seen c rest else to_title_full u c)
     @ do_title u (is_cased u c) (c # seen) rest"

definition str_title :: "ucd \<Rightarrow> pystr \<Rightarrow> pystr" where
  "str_title u s = do_title u False [] s"

text \<open>
  The rows of the database for ASCII (U+0000 to U+007F): the letters map to each other
  by an offset of 32, they are the cased code points, and the whitespace code points are
  tab to carriage return, the four separators U+001C to U+001F and the space.
\<close>

definition ascii_lower :: "codepoint \<Rightarrow> codepoint" where
  "ascii_lower c = (if 65 \<le> c \<and> c \<le> 90 then c + 32 else c)"

definition ascii_upper :: "codepoint \<Rightarrow> codepoint" where
  "ascii_upper c = (if 97 \<le> c \<and> c \<le> 122 then c - 32 else c)"

definition ascii_alpha :: "codepoint \<Rightarrow> bool" where
  "ascii_alpha c = ((65 \<le> c \<and> c \<le> 90) \<or> (97 \<le> c \<and> c \<le> 122))"

definition ascii_space :: "codepoint \<Rightarrow> bool" where
  "ascii_space c = ((9 \<le> c \<and> c \<le> 13) \<or> (28 \<le> c \<and> c \<le> 32))"

definition is_ascii :: "pystr \<Rightarrow> bool" where
  "is_ascii s = list_all (\<lambda>c. c < 128) s"

text \<open>A database agrees with Unicode on ASCII when its ASCII rows are the ones above.\<close>

definition ucd_ascii :: "ucd \<Rightarrow> bool" where
  "ucd_ascii u =
     (\<forall>c < 128.
        to_lower_full u c = [ascii_lower c] \<and>
        to_upper_full u c = [ascii_upper c] \<and>
        to_title_full u c = [ascii_upper c] \<and>
        is_cased u c = ascii_alpha c \<and>
        is_whitespace u c = ascii_space c)"

text \<open>
  In Unicode no case mapping is empty and none turns a code point that is not whitespace
  into whitespace; the two lower-case sigmas are not whitespace either.
\<close>

definition ucd_case_keeps_nonspace :: "ucd \<Rightarrow> bool" where
  "ucd_case_keeps_nonspace u =
     ((\<forall>c. \<not> is_whitespace u c \<longrightarrow>
          to_lower_full u c \<noteq> [] \<and> to_title_full u c \<noteq> [] \<and>
          (\<forall>d \<in> set (to_lower_full u c) \<union> set (to_title_full u c). \<not> is_whitespace u d)) \<and>
      \<not> is_whitespace u 0x3C2 \<and> \<not> is_whitespace u 0x3C3)"

text \<open>
  A sample database for evaluation: the ASCII rows, and the row of U+017F (Latin small
  letter long s: lower case itself, upper and title case \<open>S\<close>, cased). Every other code
  point is given no case and is not whitespace; the evaluations below only read the rows
  named here.
\<close>

definition ucd_sample :: ucd where
  "ucd_sample =
     \<lparr> to_lower_full = (\<lambda>c. if c < 128 then [ascii_lower c] else [c]),
       to_upper_full = (\<lambda>c. if c < 128 then [ascii_upper c] else if c = 0x17F then [0x53] else [c]),
       to_title_full = (\<lambda>c. if c < 128 then [ascii_upper c] else if c = 0x17F then [0x53] else [c]),
       is_cased = (\<lambda>c. if c < 128 then ascii_alpha c else c = 0x17F),
       is_case_ignorable = (\<lambda>c. c \<in> {0x27, 0x2E, 0x3A, 0x5E, 0x60}),
       is_whitespace = (\<lambda>c. c < 128 \<and> ascii_space c) \<rparr>"

subsection \<open>The tables\<close>

text \<open>
  A \<^verbatim>\<open>dict\<close> keeps its keys in insertion order, and \<^verbatim>\<open>list(d.keys())\<close> returns
  them in that order: the two tables are association lists. \<^verbatim>\<open>d[k]\<close> raises
  \<^verbatim>\<open>KeyError\<close> on a missing key, and calling an object that is not callable
  raises \<^verbatim>\<open>TypeError\<close>.
\<close>

datatype py_error = KeyError pystr | TypeError

type_synonym pydict = "(pystr \<times> pystr) list"

definition dict_keys :: "pydict \<Rightarrow> pystr list" where
  "dict_keys d = map fst d"

definition dict_contains :: "pydict \<Rightarrow> pystr \<Rightarrow> bool" where
  "dict_contains d k = (k \<in> set (dict_keys d))"

definition dict_getitem :: "pydict \<Rightarrow> pystr \<Rightarrow> py_error + pystr" where
  "dict_getitem d k = (case map_of d k of None \<Rightarrow> Inl (KeyError k) | Some v \<Rightarrow> Inr v)"

definition LOCATIONS :: pydict where
  "LOCATIONS =
     [(str ''Seattle'', str ''America/Los_Angeles''),
      (str ''New York'', str ''America/New_York''),
      (str ''London'', str ''Europe/London''),
      (str ''Berlin'', str ''Europe/Berlin''),
      (str ''Tokyo'', str ''Asia/Tokyo''),
      (str ''Sydney'', str ''Australia/Sydney'')]"

definition STATIC_WEATHER :: pydict where
  "STATIC_WEATHER =
     [(str ''morning'', str ''Cool and clear with a light breeze.''),
      (str ''afternoon'', str ''Mild temperatures with scattered clouds and good visibility.''),
      (str ''evening'', str ''Calm conditions with a gentle breeze and fading light.''),
      (str ''night'', str ''Quiet, mostly clear skies and cooler air.'')]"

subsection \<open>Local time\<close>

text \<open>
  The fields of a \<^verbatim>\<open>datetime\<close> that the server reads. Python integers are
  unbounded, so the fields are \<open>int\<close>; a \<^verbatim>\<open>datetime\<close> built by the library has
  its hour in 0 to 23.
\<close>

record datetime =
  year :: int
  month :: int
  day :: int
  hour :: int
  minute :: int
  second :: int

definition get_time_bucket :: "datetime \<Rightarrow> pystr" where
  "get_time_bucket local_dt =
     (let hour = hour local_dt in
      if 5 \<le> hour \<and> hour \<le> 11 then str ''morning''
      else if 12 \<le> hour \<and> hour \<le> 17 then str ''afternoon''
      else if 18 \<le> hour \<and> hour \<le> 21 then str ''evening''
      else str ''night'')"

subsection \<open>Normalising a location\<close>

text \<open>
  The loop of \<^verbatim>\<open>_normalize_location\<close> over the keys, in their order: the first key
  whose lower-case form equals \<open>name\<close> is returned; when the loop ends without a match
  the caller falls back.
\<close>

fun find_key :: "ucd \<Rightarrow> pystr \<Rightarrow> pystr list \<Rightarrow> pystr option" where
  "find_key u name [] = None"
| "find_key u name (key # keys) =
     (if name = str_lower u key then Some key else find_key u name keys)"

definition normalize_location :: "ucd \<Rightarrow> pystr \<Rightarrow> pystr" where
  "normalize_location u name =
     (let name = str_lower u (str_strip u name) in
      case find_key u name (dict_keys LOCATIONS) of
        Some key \<Rightarrow> key
      | None \<Rightarrow> str_title u name)"

subsection \<open>The tools\<close>

definition list_supported_locations :: "pystr list" where
  "list_supported_locations = dict_keys LOCATIONS"

text \<open>
  \<^verbatim>\<open>strftime("%Y-%m-%d %H:%M")\<close>: the year in four decimal digits, then month, day,
  hour and minute in two digits each, padded with zeros. (For a year below 1000 the
  padding of \<^verbatim>\<open>%Y\<close> depends on the platform; the clock of a running server is
  beyond that.)
\<close>

fun dec_digits :: "nat \<Rightarrow> pystr" where
  "dec_digits n = (if n < 10 then [48 + n] else dec_digits (n div 10) @ [48 + n mod 10])"

definition zero_pad :: "nat \<Rightarrow> int \<Rightarrow> pystr" where
  "zero_pad w i = (let ds = dec_digits (nat i) in replicate (w - length ds) 48 @ ds)"

definition strftime_Ymd_HM :: "datetime \<Rightarrow> pystr" where
  "strftime_Ymd_HM dt =
     zero_pad 4 (year dt) @ str ''-'' @ zero_pad 2 (month dt) @ str ''-'' @ zero_pad 2 (day dt)
     @ str '' '' @ zero_pad 2 (hour dt) @ str '':'' @ zero_pad 2 (minute dt)"

text \<open>
  What the server takes from outside the repository: the Unicode database, the time
  zone database behind \<^verbatim>\<open>pytz.timezone\<close>, and the system clock. A time zone turns
  an instant (POSIX time) into the local \<^verbatim>\<open>datetime\<close>; \<^verbatim>\<open>pytz.timezone\<close> raises
  for a name it does not know, which is \<open>None\<close> here. The clock is read once by every
  \<^verbatim>\<open>datetime.now\<close>: \<open>system_clock rt n\<close> is the instant that the read number \<open>n\<close>
  returns, and the number of reads made so far is the state that the tools pass on.
  The conversion by a resolved zone and \<^verbatim>\<open>strftime\<close> are library code that
  returns for every instant of the clock; they are total functions here.

  The last thing from outside is the decorator \<^verbatim>\<open>@mcp.tool()\<close>. The server
  framework calls the function it was given; but the decorator also decides what the
  module-level name \<^verbatim>\<open>get_weather_at_location\<close> is bound to afterwards, and that
  name is what the loop of \<^verbatim>\<open>get_weather_for_multiple_locations\<close> calls. Some
  versions of the library hand the function back (\<open>PlainFunction\<close>); others
  (fastmcp 2.7 to 2.14) put a tool object in its place, which is not callable
  (\<open>ToolObject\<close>).
\<close>

type_synonym tzinfo = "int \<Rightarrow> datetime"

datatype decorated = PlainFunction | ToolObject

record runtime =
  unicode :: ucd
  pytz_timezone :: "pystr \<Rightarrow> tzinfo option"
  system_clock :: "nat \<Rightarrow> int"
  mcp_tool :: decorated

definition datetime_now :: "runtime \<Rightarrow> tzinfo \<Rightarrow> nat \<Rightarrow> datetime \<times> nat" where
  "datetime_now rt tz n = (tz (system_clock rt n), Suc n)"

definition unsupported_location_message :: pystr where
  "unsupported_location_message =
     str ''Unsupported location. Use `list_supported_locations` to see valid options.''"

definition timezone_failure_message :: pystr where
  "timezone_failure_message =
     str ''Sorry, I couldn't resolve the time zone for that location.''"

definition weather_line :: "pystr \<Rightarrow> pystr \<Rightarrow> pystr \<Rightarrow> pystr \<Rightarrow> pystr" where
  "weather_line norm local_time_str bucket description =
     str ''Weather for '' @ norm @ str '' at '' @ local_time_str @ str '' ('' @ bucket
     @ str ''): '' @ description"

text \<open>
  \<^verbatim>\<open>get_weather_at_location\<close>. The result is \<open>Inl\<close> for an exception that leaves
  the function and \<open>Inr\<close> for the returned string; the exception of
  \<^verbatim>\<open>pytz.timezone\<close> is caught by the \<^verbatim>\<open>except\<close> clause and turned into a message.
\<close>

definition get_weather_at_location ::
    "runtime \<Rightarrow> pystr \<Rightarrow> nat \<Rightarrow> (py_error + pystr) \<times> nat" where
  "get_weather_at_location rt location n =
     (let norm = normalize_location (unicode rt) location in
      if \<not> dict_contains LOCATIONS norm then (Inr unsupported_location_message, n)
      else
        case dict_getitem LOCATIONS norm of
          Inl e \<Rightarrow> (Inl e, n)
        | Inr tz_name \<Rightarrow>
            (case pytz_timezone rt tz_name of
               None \<Rightarrow> (Inr timezone_failure_message, n)
             | Some tz \<Rightarrow>
                 (let (now_local, n') = datetime_now rt tz n;
                      bucket = get_time_bucket now_local
                  in case dict_getitem STATIC_WEATHER bucket of
                       Inl e \<Rightarrow> (Inl e, n')
                     | Inr description \<Rightarrow>
                         (let local_time_str = strftime_Ymd_HM now_local
                          in (Inr (weather_line norm local_time_str bucket description), n')))))"

text \<open>
  A call through the module-level name \<^verbatim>\<open>get_weather_at_location\<close>, as on line
  109 of the source: the function runs when the name is still bound to it, and the call
  raises \<^verbatim>\<open>TypeError\<close> when the decorator has bound the name to a tool object.
\<close>

definition call_get_weather_at_location ::
    "runtime \<Rightarrow> pystr \<Rightarrow> nat \<Rightarrow> (py_error + pystr) \<times> nat" where
  "call_get_weather_at_location rt loc n =
     (case mcp_tool rt of
        PlainFunction \<Rightarrow> get_weather_at_location rt loc n
      | ToolObject \<Rightarrow> (Inl TypeError, n))"

text \<open>
  \<^verbatim>\<open>get_weather_for_multiple_locations\<close>: the loop appends one result per location
  to \<open>results\<close>; an exception of a call ends the loop and leaves the function.
\<close>

fun multiple_locations_loop ::
    "runtime \<Rightarrow> pystr list \<Rightarrow> pystr list \<Rightarrow> nat \<Rightarrow> (py_error + pystr list) \<times> nat" where
  "multiple_locations_loop rt results [] n = (Inr results, n)"
| "multiple_locations_loop rt results (loc # locations) n =
     (case call_get_weather_at_location rt loc n of
        (Inl e, n') \<Rightarrow> (Inl e, n')
      | (Inr r, n') \<Rightarrow> multiple_locations_loop rt (results @ [r]) locations n')"

definition get_weather_for_multiple_locations ::
    "runtime \<Rightarrow> pystr list \<Rightarrow> nat \<Rightarrow> (py_error + pystr list) \<times> nat" where
  "get_weather_for_multiple_locations rt locations n = multiple_locations_loop rt [] locations n"

subsection \<open>Notions of the specification, and sample surroundings\<close>

text \<open>
  An input matches a canonical location, case-insensitively and after trimming, when
  the comparison of the loop succeeds for one of the keys.
\<close>

definition matches_canonical :: "ucd \<Rightarrow> pystr \<Rightarrow> bool" where
  "matches_canonical u s =
     (\<exists>key \<in> set (dict_keys LOCATIONS). str_lower u (str_strip u s) = str_lower u key)"

text \<open>Two local times in the same minute: the same date, hour and minute.\<close>

definition same_minute :: "datetime \<Rightarrow> datetime \<Rightarrow> bool" where
  "same_minute a b =
     (year a = year b \<and> month a = month b \<and> day a = day b \<and>
      hour a = hour b \<and> minute a = minute b)"

text \<open>The time zone database resolves every zone name of the Location Table.\<close>

definition zones_resolvable :: "runtime \<Rightarrow> bool" where
  "zones_resolvable rt = (\<forall>tz_name \<in> set (map snd LOCATIONS). pytz_timezone rt tz_name \<noteq> None)"

text \<open>
  Sample surroundings for evaluation. The sample clock counts the seconds since
  2026-11-04 00:00 UTC, and a sample zone is a fixed offset in seconds from UTC (good for
  the rest of that month); the sample time zone database knows the six zone names of the
  table, at their offsets of that day, and no other name.
\<close>

definition sample_zone :: "int \<Rightarrow> tzinfo" where
  "sample_zone offset t =
     (let local = t + offset in
      \<lparr> year = 2026, month = 11, day = 4 + local div 86400,
        hour = (local div 3600) mod 24, minute = (local div 60) mod 60,
        second = local mod 60 \<rparr>)"

definition sample_timezone :: "pystr \<Rightarrow> tzinfo option" where
  "sample_timezone tz_name =
     map_of
       [(str ''America/Los_Angeles'', sample_zone (- 28800)),
        (str ''America/New_York'', sample_zone (- 18000)),
        (str ''Europe/London'', sample_zone 0),
        (str ''Europe/Berlin'', sample_zone 3600),
        (str ''Asia/Tokyo'', sample_zone 32400),
        (str ''Australia/Sydney'', sample_zone 39600)] tz_name"

text \<open>
  The sample clock starts at 09:05:07 UTC and advances by 20 seconds per read; the
  sample decorator hands the function back.
\<close>

definition sample_runtime :: runtime where
  "sample_runtime =
     \<lparr> unicode = ucd_sample,
       pytz_timezone = sample_timezone,
       system_clock = (\<lambda>n. 32707 + 20 * int n),
       mcp_tool = PlainFunction \<rparr>"

definition sample_datetime :: "int \<Rightarrow> datetime" where
  "sample_datetime h = \<lparr> year = 2026, month = 11, day = 4, hour = h, minute = 30, second = 0 \<rparr>"

section \<open>Facts about the string operations\<close>

text \<open>
  On ASCII strings the operations are the ASCII ones, whatever the rest of the database
  holds; so two databases that agree with Unicode on ASCII give the same results there.
\<close>

lemma lower_ucs4_ascii:
  "ucd_ascii u \<Longrightarrow> c < 128 \<Longrightarrow> lower_ucs4 u seen c rest = [ascii_lower c]"
  by (simp add: lower_ucs4_def ucd_ascii_def)

lemma do_lower_ascii:
  "ucd_ascii u \<Longrightarrow> is_ascii s \<Longrightarrow> do_lower u seen s = map ascii_lower s"
  by (induction s arbitrary: seen) (simp_all add: is_ascii_def lower_ucs4_ascii)

lemma str_lower_ascii:
  "ucd_ascii u \<Longrightarrow> is_ascii s \<Longrightarrow> str_lower u s = map ascii_lower s"
  by (simp add: str_lower_def do_lower_ascii)

lemma str_upper_ascii:
  "ucd_ascii u \<Longrightarrow> is_ascii s \<Longrightarrow> str_upper u s = map ascii_upper s"
  by (induction s) (simp_all add: str_upper_def is_ascii_def ucd_ascii_def)

lemma ascii_lower_less: "c < 128 \<Longrightarrow> ascii_lower c < 128"
  by (simp add: ascii_lower_def)

lemma ascii_upper_less: "c < 128 \<Longrightarrow> ascii_upper c < 128"
  by (auto simp add: ascii_upper_def)

lemma is_ascii_map_lower: "is_ascii s \<Longrightarrow> is_ascii (map ascii_lower s)"
  by (simp add: is_ascii_def list_all_iff ascii_lower_less)

lemma is_ascii_map_upper: "is_ascii s \<Longrightarrow> is_ascii (map ascii_upper s)"
  by (simp add: is_ascii_def list_all_iff ascii_upper_less)

lemma do_title_lower_ascii:
  "ucd_ascii u \<Longrightarrow> is_ascii s \<Longrightarrow>
   do_title u p seen (map ascii_lower s) = do_title u p seen' s"
proof (induction s arbitrary: p seen seen')
  case Nil
  then show ?case by simp
next
  case (Cons c s)
  from Cons.prems have c: "c < 128" and s: "is_ascii s"
    by (simp_all add: is_ascii_def)
  have lc: "ascii_lower c < 128" using c by (rule ascii_lower_less)
  have cased: "is_cased u (ascii_lower c) = is_cased u c"
    using Cons.prems(1) c lc by (auto simp add: ucd_ascii_def ascii_alpha_def ascii_lower_def)
  have hd_eq: "(if p then lower_ucs4 u seen (ascii_lower c) (map ascii_lower s)
                else to_title_full u (ascii_lower c))
             = (if p then lower_ucs4 u seen' c s else to_title_full u c)"
    using Cons.prems(1) c lc
    by (auto simp add: lower_ucs4_ascii ucd_ascii_def ascii_lower_def ascii_upper_def)
  show ?case
    using Cons.IH [OF Cons.prems(1) s, of "is_cased u c" "ascii_lower c # seen" "c # seen'"]
    by (simp add: hd_eq cased)
qed

lemma lower_do_title_ascii:
  "ucd_ascii u \<Longrightarrow> is_ascii s \<Longrightarrow> map ascii_lower (do_title u p seen s) = map ascii_lower s"
proof (induction s arbitrary: p seen)
  case Nil
  then show ?case by simp
next
  case (Cons c s)
  from Cons.prems have c: "c < 128" and s: "is_ascii s"
    by (simp_all add: is_ascii_def)
  have "map ascii_lower (if p then lower_ucs4 u seen c s else to_title_full u c) = [ascii_lower c]"
    using Cons.prems(1) c
    by (auto simp add: lower_ucs4_ascii ucd_ascii_def ascii_lower_def ascii_upper_def)
  then show ?case
    using Cons.IH [OF Cons.prems(1) s] by simp
qed

lemma is_ascii_do_title:
  "ucd_ascii u \<Longrightarrow> is_ascii s \<Longrightarrow> is_ascii (do_title u p seen s)"
proof (induction s arbitrary: p seen)
  case Nil
  then show ?case by (simp add: is_ascii_def)
next
  case (Cons c s)
  from Cons.prems have c: "c < 128" and s: "is_ascii s"
    by (simp_all add: is_ascii_def)
  have "is_ascii (if p then lower_ucs4 u seen c s else to_title_full u c)"
    using Cons.prems(1) c
    by (auto simp add: lower_ucs4_ascii ucd_ascii_def is_ascii_def ascii_lower_less ascii_upper_less)
  then show ?case
    using Cons.IH [OF Cons.prems(1) s] by (simp add: is_ascii_def)
qed


lemma do_title_ascii_indep:
  "ucd_ascii u \<Longrightarrow> ucd_ascii v \<Longrightarrow> is_ascii s \<Longrightarrow>
   do_title u p seen s = do_title v p seen' s"
proof (induction s arbitrary: p seen seen')
  case Nil
  then show ?case by simp
next
  case (Cons c s)
  from Cons.prems have c: "c < 128" and s: "is_ascii s"
    by (simp_all add: is_ascii_def)
  have blk: "(if p then lower_ucs4 u seen c s else to_title_full u c)
           = (if p then lower_ucs4 v seen' c s else to_title_full v c)"
    using Cons.prems(1,2) c by (simp add: lower_ucs4_ascii ucd_ascii_def)
  have cased: "is_cased u c = is_cased v c"
    using Cons.prems(1,2) c by (simp add: ucd_ascii_def)
  show ?case
    using Cons.IH [OF Cons.prems(1,2) s, of "is_cased v c" "c # seen" "c # seen'"]
    by (simp add: blk cased)
qed

lemma is_ascii_dropWhile: "is_ascii s \<Longrightarrow> is_ascii (dropWhile P s)"
  by (auto simp add: is_ascii_def list_all_iff dest: set_dropWhileD)

lemma is_ascii_rev: "is_ascii (rev s) = is_ascii s"
  by (simp add: is_ascii_def list_all_iff)

lemma is_ascii_strip: "is_ascii s \<Longrightarrow> is_ascii (str_strip u s)"
  by (simp add: str_strip_def str_lstrip_def str_rstrip_def is_ascii_dropWhile is_ascii_rev)

lemma dropWhile_space_ascii:
  "ucd_ascii u \<Longrightarrow> is_ascii s \<Longrightarrow> dropWhile (is_whitespace u) s = dropWhile ascii_space s"
  by (rule dropWhile_cong) (simp_all add: ucd_ascii_def is_ascii_def list_all_iff)

lemma str_strip_ascii:
  "ucd_ascii u \<Longrightarrow> is_ascii s \<Longrightarrow>
   str_strip u s = rev (dropWhile ascii_space (rev (dropWhile ascii_space s)))"
  by (simp add: str_strip_def str_lstrip_def str_rstrip_def dropWhile_space_ascii
      is_ascii_dropWhile is_ascii_rev)

lemma find_key_ascii_indep:
  "ucd_ascii u \<Longrightarrow> ucd_ascii v \<Longrightarrow> list_all is_ascii keys \<Longrightarrow>
   find_key u name keys = find_key v name keys"
  by (induction keys) (simp_all add: str_lower_ascii)

lemma keys_ascii: "list_all is_ascii (dict_keys LOCATIONS)"
  by (simp add: dict_keys_def LOCATIONS_def is_ascii_def str_def)

lemma normalize_location_ascii_indep:
  assumes u: "ucd_ascii u" and v: "ucd_ascii v" and s: "is_ascii s"
  shows "normalize_location u s = normalize_location v s"
proof -
  have strip: "str_strip u s = str_strip v s"
    using u v s by (simp add: str_strip_ascii)
  have a: "is_ascii (str_strip v s)"
    using s by (rule is_ascii_strip)
  have low: "str_lower u (str_strip u s) = str_lower v (str_strip v s)"
    using u v a by (simp add: strip str_lower_ascii)
  have al: "is_ascii (str_lower v (str_strip v s))"
    using v a by (simp add: str_lower_ascii is_ascii_map_lower)
  have tit: "str_title u (str_lower v (str_strip v s)) = str_title v (str_lower v (str_strip v s))"
    unfolding str_title_def using u v al by (rule do_title_ascii_indep)
  show ?thesis
    by (simp add: normalize_location_def Let_def low tit find_key_ascii_indep [OF u v keys_ascii]
        split: option.split)
qed

lemma ucd_sample_ascii: "ucd_ascii ucd_sample"
  by (simp add: ucd_ascii_def ucd_sample_def)

lemma dropWhile_all_prefix:
  "list_all P xs \<Longrightarrow> dropWhile P (xs @ ys) = dropWhile P ys"
  by (induction xs) simp_all

lemma str_strip_surrounded:
  assumes pre: "list_all (is_whitespace u) pre" and post: "list_all (is_whitespace u) post"
    and ne: "s \<noteq> []" and h: "\<not> is_whitespace u (hd s)" and l: "\<not> is_whitespace u (last s)"
  shows "str_strip u (pre @ s @ post) = s"
proof -
  have left: "dropWhile (is_whitespace u) (pre @ s @ post) = s @ post"
    using pre ne h by (cases s) (simp_all add: dropWhile_all_prefix)
  have "dropWhile (is_whitespace u) (rev post @ rev s) = rev s"
    using post ne l by (cases s rule: rev_cases) (simp_all add: dropWhile_all_prefix)
  then show ?thesis
    by (simp add: str_strip_def str_lstrip_def str_rstrip_def left)
qed

lemma normalize_location_strip_eq:
  "str_strip u s = str_strip u t \<Longrightarrow> normalize_location u s = normalize_location u t"
  by (simp add: normalize_location_def)


lemma canonical_sample_facts:
  "\<forall>L \<in> set list_supported_locations.
     is_ascii L \<and> L \<noteq> [] \<and> hd L < 128 \<and> last L < 128 \<and>
     \<not> ascii_space (hd L) \<and> \<not> ascii_space (last L) \<and>
     normalize_location ucd_sample (map ascii_lower L) = L \<and>
     normalize_location ucd_sample (map ascii_upper L) = L \<and>
     normalize_location ucd_sample L = L"
  by code_simp

section \<open>Facts about normalisation\<close>

lemma find_key_None_iff:
  "find_key u name keys = None \<longleftrightarrow> (\<forall>key \<in> set keys. name \<noteq> str_lower u key)"
  by (induction keys) auto

lemma find_key_Some_mem: "find_key u name keys = Some key \<Longrightarrow> key \<in> set keys"
  by (induction keys) (auto split: if_splits)

lemma normalize_location_no_match:
  "\<not> matches_canonical u s \<Longrightarrow>
   normalize_location u s = str_title u (str_lower u (str_strip u s))"
  by (simp add: normalize_location_def matches_canonical_def find_key_None_iff [THEN iffD2])

lemma normalize_location_match:
  "matches_canonical u s \<Longrightarrow> normalize_location u s \<in> set (dict_keys LOCATIONS)"
proof -
  assume "matches_canonical u s"
  then have "find_key u (str_lower u (str_strip u s)) (dict_keys LOCATIONS) \<noteq> None"
    by (simp add: matches_canonical_def find_key_None_iff)
  then obtain key where
    k: "find_key u (str_lower u (str_strip u s)) (dict_keys LOCATIONS) = Some key"
    by blast
  then have "key \<in> set (dict_keys LOCATIONS)"
    by (rule find_key_Some_mem)
  then show ?thesis
    by (simp add: normalize_location_def k)
qed

lemma ascii_lower_idem: "ascii_lower (ascii_lower c) = ascii_lower c"
  by (simp add: ascii_lower_def)

lemma fallback_ascii:
  assumes u: "ucd_ascii u" and s: "is_ascii s" and nm: "\<not> matches_canonical u s"
  shows "normalize_location u s = str_title u (str_strip u s)"
    and "\<not> dict_contains LOCATIONS (normalize_location u s)"
proof -
  let ?t = "str_strip u s"
  have t: "is_ascii ?t"
    using s by (rule is_ascii_strip)
  have low: "str_lower u ?t = map ascii_lower ?t"
    using u t by (rule str_lower_ascii)
  have n: "normalize_location u s = str_title u (map ascii_lower ?t)"
    using nm by (simp add: normalize_location_no_match low)
  show eq: "normalize_location u s = str_title u ?t"
    unfolding n str_title_def using u t by (rule do_title_lower_ascii)
  show "\<not> dict_contains LOCATIONS (normalize_location u s)"
  proof
    assume "dict_contains LOCATIONS (normalize_location u s)"
    then have key: "str_title u ?t \<in> set (dict_keys LOCATIONS)"
      by (simp add: dict_contains_def eq)
    have "is_ascii (str_title u ?t)"
      unfolding str_title_def using u t by (rule is_ascii_do_title)
    then have "str_lower u (str_title u ?t) = map ascii_lower (str_title u ?t)"
      using u by (simp add: str_lower_ascii)
    also have "\<dots> = map ascii_lower ?t"
      unfolding str_title_def using u t by (rule lower_do_title_ascii)
    finally have "str_lower u ?t = str_lower u (str_title u ?t)"
      by (simp add: low)
    with key have "matches_canonical u s"
      unfolding matches_canonical_def by blast
    with nm show False by simp
  qed
qed

lemma last_dropWhile: "dropWhile P xs \<noteq> [] \<Longrightarrow> last (dropWhile P xs) = last xs"
  by (induction xs) (auto split: if_splits)

lemma str_strip_ends:
  assumes "str_strip u s \<noteq> []"
  shows "\<not> is_whitespace u (hd (str_strip u s))"
    and "\<not> is_whitespace u (last (str_strip u s))"
proof -
  let ?P = "is_whitespace u"
  let ?l = "dropWhile ?P s"
  let ?r = "dropWhile ?P (rev ?l)"
  have strip: "str_strip u s = rev ?r"
    by (simp add: str_strip_def str_lstrip_def str_rstrip_def)
  with assms have r: "?r \<noteq> []"
    by simp
  have l: "?l \<noteq> []"
  proof
    assume e: "?l = []"
    have "?r = []" unfolding e by simp
    with r show False by blast
  qed
  have "hd (rev ?r) = last ?r"
    using r by (simp add: hd_rev)
  also have "\<dots> = last (rev ?l)"
    using r by (rule last_dropWhile)
  also have "\<dots> = hd ?l"
    using l by (simp add: last_rev)
  finally have "hd (str_strip u s) = hd ?l"
    by (simp add: strip)
  moreover have "\<not> ?P (hd ?l)"
    using l by (rule hd_dropWhile)
  ultimately show "\<not> ?P (hd (str_strip u s))"
    by simp
  have "last (rev ?r) = hd ?r"
    using r by (simp add: last_rev)
  moreover have "\<not> ?P (hd ?r)"
    using r by (rule hd_dropWhile)
  ultimately show "\<not> ?P (last (str_strip u s))"
    by (simp add: strip)
qed

lemma str_strip_fixed:
  assumes "s = [] \<or> (\<not> is_whitespace u (hd s) \<and> \<not> is_whitespace u (last s))"
  shows "str_strip u s = s"
proof (cases "s = []")
  case True
  then show ?thesis
    by (simp add: str_strip_def str_lstrip_def str_rstrip_def)
next
  case False
  with assms str_strip_surrounded [of u "[]" "[]" s] show ?thesis
    by simp
qed

lemma lower_ucs4_nonspace:
  assumes "ucd_case_keeps_nonspace u" and "\<not> is_whitespace u c"
  shows "lower_ucs4 u seen c rest \<noteq> []"
    and "\<forall>d \<in> set (lower_ucs4 u seen c rest). \<not> is_whitespace u d"
  using assms
  by (auto simp add: ucd_case_keeps_nonspace_def lower_ucs4_def handle_capital_sigma_def Let_def)

lemma to_title_full_nonspace:
  assumes "ucd_case_keeps_nonspace u" and "\<not> is_whitespace u c"
  shows "to_title_full u c \<noteq> []"
    and "\<forall>d \<in> set (to_title_full u c). \<not> is_whitespace u d"
  using assms by (auto simp add: ucd_case_keeps_nonspace_def)

lemma title_block_nonspace:
  assumes "ucd_case_keeps_nonspace u" and "\<not> is_whitespace u c"
  shows "(if p then lower_ucs4 u seen c rest else to_title_full u c) \<noteq> []"
    and "\<forall>d \<in> set (if p then lower_ucs4 u seen c rest else to_title_full u c).
           \<not> is_whitespace u d"
  using lower_ucs4_nonspace [OF assms] to_title_full_nonspace [OF assms] by simp_all

lemma do_title_hd:
  assumes k: "ucd_case_keeps_nonspace u" and ne: "s \<noteq> []" and h: "\<not> is_whitespace u (hd s)"
  shows "do_title u p seen s \<noteq> [] \<and> \<not> is_whitespace u (hd (do_title u p seen s))"
proof (cases s)
  case Nil
  with ne show ?thesis by simp
next
  case (Cons c rest)
  with h have c: "\<not> is_whitespace u c" by simp
  let ?b = "if p then lower_ucs4 u seen c rest else to_title_full u c"
  have b: "?b \<noteq> []" and bs: "\<forall>d \<in> set ?b. \<not> is_whitespace u d"
    using title_block_nonspace [OF k c] by blast+
  from b have "hd ?b \<in> set ?b" by simp
  with bs have "\<not> is_whitespace u (hd ?b)" by blast
  with b show ?thesis
    by (simp add: Cons)
qed

lemma do_title_last:
  assumes k: "ucd_case_keeps_nonspace u"
  shows "s \<noteq> [] \<Longrightarrow> \<not> is_whitespace u (last s) \<Longrightarrow>
         do_title u p seen s \<noteq> [] \<and> \<not> is_whitespace u (last (do_title u p seen s))"
proof (induction s arbitrary: p seen)
  case Nil
  then show ?case by simp
next
  case (Cons c rest)
  let ?b = "if p then lower_ucs4 u seen c rest else to_title_full u c"
  show ?case
  proof (cases "rest = []")
    case True
    with Cons.prems have c: "\<not> is_whitespace u c" by simp
    have b: "?b \<noteq> []" and bs: "\<forall>d \<in> set ?b. \<not> is_whitespace u d"
      using title_block_nonspace [OF k c] by blast+
    from b have "last ?b \<in> set ?b" by simp
    with bs have "\<not> is_whitespace u (last ?b)" by blast
    with b True show ?thesis by (cases p) simp_all
  next
    case False
    with Cons.prems have "\<not> is_whitespace u (last rest)" by simp
    with False Cons.IH [of "is_cased u c" "c # seen"]
    have "do_title u (is_cased u c) (c # seen) rest \<noteq> []"
      and "\<not> is_whitespace u (last (do_title u (is_cased u c) (c # seen) rest))"
      by blast+
    then show ?thesis by simp
  qed
qed

lemma do_lower_hd:
  assumes k: "ucd_case_keeps_nonspace u" and ne: "s \<noteq> []" and h: "\<not> is_whitespace u (hd s)"
  shows "do_lower u seen s \<noteq> [] \<and> \<not> is_whitespace u (hd (do_lower u seen s))"
proof (cases s)
  case Nil
  with ne show ?thesis by simp
next
  case (Cons c rest)
  with h have c: "\<not> is_whitespace u c" by simp
  let ?b = "lower_ucs4 u seen c rest"
  have b: "?b \<noteq> []" and bs: "\<forall>d \<in> set ?b. \<not> is_whitespace u d"
    using lower_ucs4_nonspace [OF k c] by blast+
  from b have "hd ?b \<in> set ?b" by simp
  with bs have "\<not> is_whitespace u (hd ?b)" by blast
  with b show ?thesis
    by (simp add: Cons)
qed

lemma do_lower_last:
  assumes k: "ucd_case_keeps_nonspace u"
  shows "s \<noteq> [] \<Longrightarrow> \<not> is_whitespace u (last s) \<Longrightarrow>
         do_lower u seen s \<noteq> [] \<and> \<not> is_whitespace u (last (do_lower u seen s))"
proof (induction s arbitrary: seen)
  case Nil
  then show ?case by simp
next
  case (Cons c rest)
  let ?b = "lower_ucs4 u seen c rest"
  show ?case
  proof (cases "rest = []")
    case True
    with Cons.prems have c: "\<not> is_whitespace u c" by simp
    have b: "?b \<noteq> []" and bs: "\<forall>d \<in> set ?b. \<not> is_whitespace u d"
      using lower_ucs4_nonspace [OF k c] by blast+
    from b have "last ?b \<in> set ?b" by simp
    with bs have "\<not> is_whitespace u (last ?b)" by blast
    with b True show ?thesis by simp
  next
    case False
    with Cons.prems have "\<not> is_whitespace u (last rest)" by simp
    with False Cons.IH [of "c # seen"]
    have "do_lower u (c # seen) rest \<noteq> []"
      and "\<not> is_whitespace u (last (do_lower u (c # seen) rest))"
      by blast+
    then show ?thesis by simp
  qed
qed

lemma title_lower_strip_fixed:
  assumes k: "ucd_case_keeps_nonspace u"
  shows "str_strip u (str_title u (str_lower u (str_strip u s))) =
         str_title u (str_lower u (str_strip u s))"
proof (cases "str_strip u s = []")
  case True
  then show ?thesis
    by (simp add: str_title_def str_lower_def str_strip_fixed)
next
  case False
  let ?t = "str_strip u s"
  let ?l = "str_lower u ?t"
  have h: "\<not> is_whitespace u (hd ?t)" and l: "\<not> is_whitespace u (last ?t)"
    using str_strip_ends [OF False] by blast+
  have l1: "?l \<noteq> []" and l2: "\<not> is_whitespace u (hd ?l)"
    using do_lower_hd [OF k False h, of "[]"] by (simp_all add: str_lower_def)
  have l3: "\<not> is_whitespace u (last ?l)"
    using do_lower_last [OF k False l, of "[]"] by (simp add: str_lower_def)
  have "\<not> is_whitespace u (hd (str_title u ?l))"
    using do_title_hd [OF k l1 l2, of False "[]"] by (simp add: str_title_def)
  moreover have "\<not> is_whitespace u (last (str_title u ?l))"
    using do_title_last [OF k l1 l3, of False "[]"] by (simp add: str_title_def)
  ultimately show ?thesis
    by (simp add: str_strip_fixed)
qed

lemma canonical_strip_fixed:
  assumes u: "ucd_ascii u" and L: "L \<in> set (dict_keys LOCATIONS)"
  shows "str_strip u L = L"
proof -
  from canonical_sample_facts L
  have "L \<noteq> []" and "hd L < 128" and "last L < 128"
    and "\<not> ascii_space (hd L)" and "\<not> ascii_space (last L)"
    by (simp_all add: list_supported_locations_def)
  then show ?thesis
    using u by (simp add: str_strip_fixed ucd_ascii_def)
qed

lemma ucd_sample_keeps_nonspace: "ucd_case_keeps_nonspace ucd_sample"
  by (auto simp add: ucd_case_keeps_nonspace_def ucd_sample_def ascii_space_def
      ascii_lower_def ascii_upper_def)

section \<open>Facts about the tools\<close>

lemma dict_getitem_contains:
  "dict_contains d k \<Longrightarrow> \<exists>v. map_of d k = Some v \<and> dict_getitem d k = Inr v"
proof -
  assume "dict_contains d k"
  then have "k \<in> fst ` set d"
    by (simp add: dict_contains_def dict_keys_def)
  then have "map_of d k \<noteq> None"
    by (simp add: map_of_eq_None_iff)
  then show ?thesis
    by (auto simp add: dict_getitem_def)
qed

lemma static_weather_bucket:
  "\<exists>description. map_of STATIC_WEATHER (get_time_bucket dt) = Some description \<and>
     dict_getitem STATIC_WEATHER (get_time_bucket dt) = Inr description"
  by (simp add: get_time_bucket_def Let_def dict_getitem_def STATIC_WEATHER_def str_def)

lemma get_weather_unsupported_eq:
  "\<not> dict_contains LOCATIONS (normalize_location (unicode rt) location) \<Longrightarrow>
   get_weather_at_location rt location n = (Inr unsupported_location_message, n)"
  by (simp add: get_weather_at_location_def)

lemma get_weather_timezone_failure_eq:
  assumes "map_of LOCATIONS (normalize_location (unicode rt) location) = Some tz_name"
    and "pytz_timezone rt tz_name = None"
  shows "get_weather_at_location rt location n = (Inr timezone_failure_message, n)"
proof -
  from assms(1) have "dict_contains LOCATIONS (normalize_location (unicode rt) location)"
    by (auto simp add: dict_contains_def dict_keys_def dest: map_of_SomeD intro: rev_image_eqI)
  with assms show ?thesis
    by (simp add: get_weather_at_location_def dict_getitem_def)
qed

lemma get_weather_line_eq:
  assumes "map_of LOCATIONS (normalize_location (unicode rt) location) = Some tz_name"
    and "pytz_timezone rt tz_name = Some tz"
    and "map_of STATIC_WEATHER (get_time_bucket (tz (system_clock rt n))) = Some description"
  shows "get_weather_at_location rt location n =
           (Inr (weather_line (normalize_location (unicode rt) location)
                   (strftime_Ymd_HM (tz (system_clock rt n)))
                   (get_time_bucket (tz (system_clock rt n))) description), Suc n)"
proof -
  from assms(1) have "dict_contains LOCATIONS (normalize_location (unicode rt) location)"
    by (auto simp add: dict_contains_def dict_keys_def dest: map_of_SomeD intro: rev_image_eqI)
  with assms show ?thesis
    by (simp add: get_weather_at_location_def dict_getitem_def datetime_now_def)
qed

text \<open>The three outcomes of one call: no exception in any of them.\<close>

lemma get_weather_cases:
  obtains
    (unsupported) "\<not> dict_contains LOCATIONS (normalize_location (unicode rt) location)"
      "get_weather_at_location rt location n = (Inr unsupported_location_message, n)"
  | (failure) tz_name where
      "map_of LOCATIONS (normalize_location (unicode rt) location) = Some tz_name"
      "pytz_timezone rt tz_name = None"
      "get_weather_at_location rt location n = (Inr timezone_failure_message, n)"
  | (line) tz_name tz description where
      "map_of LOCATIONS (normalize_location (unicode rt) location) = Some tz_name"
      "pytz_timezone rt tz_name = Some tz"
      "map_of STATIC_WEATHER (get_time_bucket (tz (system_clock rt n))) = Some description"
      "get_weather_at_location rt location n =
         (Inr (weather_line (normalize_location (unicode rt) location)
                 (strftime_Ymd_HM (tz (system_clock rt n)))
                 (get_time_bucket (tz (system_clock rt n))) description), Suc n)"
proof (cases "dict_contains LOCATIONS (normalize_location (unicode rt) location)")
  case False
  then show ?thesis
    using get_weather_unsupported_eq unsupported by blast
next
  case True
  then obtain tz_name where
    z: "map_of LOCATIONS (normalize_location (unicode rt) location) = Some tz_name"
    using dict_getitem_contains by blast
  show ?thesis
  proof (cases "pytz_timezone rt tz_name")
    case None
    with z show ?thesis
      using get_weather_timezone_failure_eq failure by blast
  next
    case (Some tz)
    obtain description where
      d: "map_of STATIC_WEATHER (get_time_bucket (tz (system_clock rt n))) = Some description"
      using static_weather_bucket by blast
    from z Some d show ?thesis
      using get_weather_line_eq line by blast
  qed
qed

lemma get_weather_returns:
  "\<exists>out n'. get_weather_at_location rt location n = (Inr out, n')"
  by (cases rule: get_weather_cases [of rt location n]) simp_all

lemma weather_line_not_message:
  "weather_line norm t b d \<noteq> unsupported_location_message"
  "weather_line norm t b d \<noteq> timezone_failure_message"
  by (simp_all add: weather_line_def unsupported_location_message_def
      timezone_failure_message_def str_def)


lemma same_minute_output:
  "same_minute a b \<Longrightarrow> strftime_Ymd_HM a = strftime_Ymd_HM b \<and> get_time_bucket a = get_time_bucket b"
  by (simp add: same_minute_def strftime_Ymd_HM_def get_time_bucket_def)

lemma get_weather_same_minute:
  assumes u: "unicode rt1 = unicode rt2" and z: "pytz_timezone rt1 = pytz_timezone rt2"
    and m: "\<forall>tz_name tz.
              map_of LOCATIONS (normalize_location (unicode rt1) location) = Some tz_name \<longrightarrow>
              pytz_timezone rt1 tz_name = Some tz \<longrightarrow>
              same_minute (tz (system_clock rt1 n1)) (tz (system_clock rt2 n2))"
  shows "fst (get_weather_at_location rt1 location n1) = fst (get_weather_at_location rt2 location n2)"
proof (cases rule: get_weather_cases [of rt1 location n1])
  case unsupported
  then show ?thesis
    using u by (simp add: get_weather_unsupported_eq)
next
  case (failure tz_name)
  then show ?thesis
    using u z get_weather_timezone_failure_eq [of rt2 location tz_name n2] by simp
next
  case (line tz_name tz description)
  from m line(1,2) have "same_minute (tz (system_clock rt1 n1)) (tz (system_clock rt2 n2))"
    by blast
  then have s: "strftime_Ymd_HM (tz (system_clock rt1 n1)) = strftime_Ymd_HM (tz (system_clock rt2 n2))"
    and b: "get_time_bucket (tz (system_clock rt1 n1)) = get_time_bucket (tz (system_clock rt2 n2))"
    using same_minute_output by blast+
  from line(1-3) have
    "get_weather_at_location rt2 location n2 =
       (Inr (weather_line (normalize_location (unicode rt2) location)
               (strftime_Ymd_HM (tz (system_clock rt2 n2)))
               (get_time_bucket (tz (system_clock rt2 n2))) description), Suc n2)"
    using u z b by (intro get_weather_line_eq) simp_all
  with line(4) show ?thesis
    using u s b by simp
qed


lemma call_plain_function:
  "mcp_tool rt = PlainFunction \<Longrightarrow>
   call_get_weather_at_location rt loc n = get_weather_at_location rt loc n"
  by (simp add: call_get_weather_at_location_def)

lemma call_tool_object:
  "mcp_tool rt = ToolObject \<Longrightarrow> call_get_weather_at_location rt loc n = (Inl TypeError, n)"
  by (simp add: call_get_weather_at_location_def)

lemma loop_state_acc:
  assumes p: "mcp_tool rt = PlainFunction"
  shows "snd (multiple_locations_loop rt acc locations n) =
         snd (multiple_locations_loop rt acc' locations n)"
proof (induction locations arbitrary: acc acc' n)
  case Nil
  show ?case by simp
next
  case (Cons loc locations)
  obtain r n1 where "get_weather_at_location rt loc n = (Inr r, n1)"
    using get_weather_returns by blast
  then show ?case
    using Cons.IH [of "acc @ [r]" n1 "acc' @ [r]"] by (simp add: call_plain_function [OF p])
qed

lemma loop_results:
  assumes p: "mcp_tool rt = PlainFunction"
  shows "\<exists>outs n'.
     multiple_locations_loop rt acc locations n = (Inr (acc @ outs), n') \<and>
     length outs = length locations \<and>
     (\<forall>i < length locations.
        Inr (outs ! i) =
        fst (get_weather_at_location rt (locations ! i)
               (snd (multiple_locations_loop rt [] (take i locations) n))))"
proof (induction locations arbitrary: acc n)
  case Nil
  show ?case by simp
next
  case (Cons loc locations)
  obtain r n1 where r: "get_weather_at_location rt loc n = (Inr r, n1)"
    using get_weather_returns by blast
  from Cons.IH [of "acc @ [r]" n1] obtain outs n' where
    l: "multiple_locations_loop rt (acc @ [r]) locations n1 = (Inr ((acc @ [r]) @ outs), n')"
    and len: "length outs = length locations"
    and el: "\<forall>i < length locations.
        Inr (outs ! i) =
        fst (get_weather_at_location rt (locations ! i)
               (snd (multiple_locations_loop rt [] (take i locations) n1)))"
    by blast
  have "multiple_locations_loop rt acc (loc # locations) n = (Inr (acc @ r # outs), n')"
    using r l by (simp add: call_plain_function [OF p])
  moreover have "length (r # outs) = length (loc # locations)"
    using len by simp
  moreover have "\<forall>i < length (loc # locations).
        Inr ((r # outs) ! i) =
        fst (get_weather_at_location rt ((loc # locations) ! i)
               (snd (multiple_locations_loop rt [] (take i (loc # locations)) n)))"
  proof (intro allI impI)
    fix i
    assume i: "i < length (loc # locations)"
    show "Inr ((r # outs) ! i) =
        fst (get_weather_at_location rt ((loc # locations) ! i)
               (snd (multiple_locations_loop rt [] (take i (loc # locations)) n)))"
    proof (cases i)
      case 0
      then show ?thesis using r by simp
    next
      case (Suc j)
      with i have j: "j < length locations" by simp
      have "snd (multiple_locations_loop rt [] (take i (loc # locations)) n) =
            snd (multiple_locations_loop rt [r] (take j locations) n1)"
        using r Suc by (simp add: call_plain_function [OF p])
      also have "\<dots> = snd (multiple_locations_loop rt [] (take j locations) n1)"
        using p by (rule loop_state_acc)
      finally show ?thesis
        using el j Suc by simp
    qed
  qed
  ultimately show ?case by blast
qed

text \<open>
  With a tool object behind the name, the first call of the loop raises: every list
  but the empty one ends in \<^verbatim>\<open>TypeError\<close>, before the clock is read.
\<close>

lemma loop_tool_object:
  "mcp_tool rt = ToolObject \<Longrightarrow> locations \<noteq> [] \<Longrightarrow>
   multiple_locations_loop rt acc locations n = (Inl TypeError, n)"
  by (cases locations) (simp_all add: call_tool_object)

lemma multiple_locations_tool_object:
  "mcp_tool rt = ToolObject \<Longrightarrow> locations \<noteq> [] \<Longrightarrow>
   get_weather_for_multiple_locations rt locations n = (Inl TypeError, n)"
  by (simp add: get_weather_for_multiple_locations_def loop_tool_object)

text \<open>No input makes the batch raise: an exception that leaves it is that one.\<close>

lemma multiple_locations_raises_only_TypeError:
  assumes "fst (get_weather_for_multiple_locations rt locations n) = Inl e"
  shows "mcp_tool rt = ToolObject \<and> e = TypeError"
proof (cases "mcp_tool rt")
  case PlainFunction
  then obtain outs n' where
    "multiple_locations_loop rt [] locations n = (Inr ([] @ outs), n')"
    using loop_results [of rt "[]" locations n] by blast
  with assms show ?thesis
    by (simp add: get_weather_for_multiple_locations_def)
next
  case ToolObject
  show ?thesis
  proof (cases "locations = []")
    case True
    with assms show ?thesis
      by (simp add: get_weather_for_multiple_locations_def)
  next
    case False
    with ToolObject assms show ?thesis
      by (simp add: multiple_locations_tool_object)
  qed
qed



section \<open>The sample surroundings, evaluated\<close>

lemma sample_zones_resolvable: "zones_resolvable sample_runtime"
  by (simp add: zones_resolvable_def LOCATIONS_def sample_runtime_def sample_timezone_def str_def)

lemma sample_london:
  "get_weather_at_location sample_runtime (str ''  london '') 0 =
     (Inr (str ''Weather for London at 2026-11-04 09:05 (morning): Cool and clear with a light breeze.''), 1)"
  by code_simp

lemma sample_seattle:
  "get_weather_at_location sample_runtime (str ''seattle'') 0 =
     (Inr (str ''Weather for Seattle at 2026-11-04 01:05 (night): Quiet, mostly clear skies and cooler air.''), 1)"
  by code_simp


lemma sample_batch_no_zones:
  "get_weather_for_multiple_locations (sample_runtime\<lparr>pytz_timezone := (\<lambda>tz_name. None)\<rparr>)
     [str ''London'', str ''Atlantis'', str ''Tokyo''] 0 =
     (Inr [timezone_failure_message, unsupported_location_message, timezone_failure_message], 0)"
  by code_simp

lemma sample_batch_tool_object:
  "get_weather_for_multiple_locations (sample_runtime\<lparr>mcp_tool := ToolObject\<rparr>)
     [str ''London'', str ''Atlantis'', str ''Tokyo''] 0 = (Inl TypeError, 0)"
  by code_simp

section \<open>The claims\<close>

text \<open>
  C1. For every hour of the day from 0 to 23 the classification gives the bucket of the
  range the hour lies in: morning for 5 to 11, afternoon for 12 to 17, evening for 18 to
  21, night for 22, 23 and 0 to 4. The four bucket names differ, so every hour has
  exactly one bucket; the boundary hours 4, 5, 11, 12, 17, 18, 21 and 22 are instances.
\<close>

theorem get_time_bucket_ranges:
  assumes "0 \<le> hour dt" and "hour dt \<le> 23"
  shows "(get_time_bucket dt = str ''morning'' \<longleftrightarrow> 5 \<le> hour dt \<and> hour dt \<le> 11) \<and>
         (get_time_bucket dt = str ''afternoon'' \<longleftrightarrow> 12 \<le> hour dt \<and> hour dt \<le> 17) \<and>
         (get_time_bucket dt = str ''evening'' \<longleftrightarrow> 18 \<le> hour dt \<and> hour dt \<le> 21) \<and>
         (get_time_bucket dt = str ''night'' \<longleftrightarrow> 22 \<le> hour dt \<or> hour dt \<le> 4) \<and>
         get_time_bucket dt \<in> {str ''morning'', str ''afternoon'', str ''evening'', str ''night''}"
  using assms by (auto simp add: get_time_bucket_def Let_def str_def)

theorem get_time_bucket_ranges_witness:
  "0 \<le> hour (sample_datetime 4) \<and> hour (sample_datetime 4) \<le> 23 \<and>
   get_time_bucket (sample_datetime 4) = str ''night'' \<and>
   get_time_bucket (sample_datetime 5) = str ''morning'' \<and>
   get_time_bucket (sample_datetime 11) = str ''morning'' \<and>
   get_time_bucket (sample_datetime 12) = str ''afternoon'' \<and>
   get_time_bucket (sample_datetime 17) = str ''afternoon'' \<and>
   get_time_bucket (sample_datetime 18) = str ''evening'' \<and>
   get_time_bucket (sample_datetime 21) = str ''evening'' \<and>
   get_time_bucket (sample_datetime 22) = str ''night''"
  using get_time_bucket_ranges [of "sample_datetime 4"]
    get_time_bucket_ranges [of "sample_datetime 5"]
    get_time_bucket_ranges [of "sample_datetime 11"]
    get_time_bucket_ranges [of "sample_datetime 12"]
    get_time_bucket_ranges [of "sample_datetime 17"]
    get_time_bucket_ranges [of "sample_datetime 18"]
    get_time_bucket_ranges [of "sample_datetime 21"]
    get_time_bucket_ranges [of "sample_datetime 22"]
  by (simp add: sample_datetime_def)

text \<open>
  C2. When the input normalises to a key of the Location Table, and the time zone
  database resolves the zone names of the table (the invariant of the Location Table),
  \<^verbatim>\<open>get_weather_at_location\<close> returns one line: \<open>Weather for\<close>, the canonical name,
  \<open>at\<close>, the local date and the time as hour and minute on the 24-hour clock, the bucket
  in parentheses, and the description of that bucket. The line is neither the
  unsupported-location message nor the time zone message.
\<close>

theorem get_weather_supported_line:
  assumes "dict_contains LOCATIONS (normalize_location (unicode rt) location)"
    and "zones_resolvable rt"
  shows "\<exists>tz_name tz description.
           map_of LOCATIONS (normalize_location (unicode rt) location) = Some tz_name \<and>
           pytz_timezone rt tz_name = Some tz \<and>
           map_of STATIC_WEATHER (get_time_bucket (tz (system_clock rt n))) = Some description \<and>
           get_weather_at_location rt location n =
             (Inr (weather_line (normalize_location (unicode rt) location)
                     (strftime_Ymd_HM (tz (system_clock rt n)))
                     (get_time_bucket (tz (system_clock rt n))) description), Suc n) \<and>
           fst (get_weather_at_location rt location n) \<noteq> Inr unsupported_location_message \<and>
           fst (get_weather_at_location rt location n) \<noteq> Inr timezone_failure_message"
proof (cases rule: get_weather_cases [of rt location n])
  case unsupported
  with assms(1) show ?thesis by simp
next
  case (failure tz_name)
  from failure(1) have "tz_name \<in> set (map snd LOCATIONS)"
    by (auto dest: map_of_SomeD intro: rev_image_eqI)
  with assms(2) have "pytz_timezone rt tz_name \<noteq> None"
    unfolding zones_resolvable_def by blast
  with failure(2) show ?thesis by simp
next
  case (line tz_name tz description)
  then show ?thesis
    by (auto simp add: weather_line_not_message)
qed

theorem get_weather_supported_line_witness:
  "dict_contains LOCATIONS (normalize_location (unicode sample_runtime) (str ''  london '')) \<and>
   zones_resolvable sample_runtime \<and>
   get_weather_at_location sample_runtime (str ''  london '') 0 =
     (Inr (str ''Weather for London at 2026-11-04 09:05 (morning): Cool and clear with a light breeze.''), 1) \<and>
   fst (get_weather_at_location sample_runtime (str ''  london '') 0) \<noteq> Inr unsupported_location_message \<and>
   fst (get_weather_at_location sample_runtime (str ''  london '') 0) \<noteq> Inr timezone_failure_message"
proof -
  have h1: "dict_contains LOCATIONS (normalize_location (unicode sample_runtime) (str ''  london ''))"
    by code_simp
  show ?thesis
    using get_weather_supported_line [OF h1 sample_zones_resolvable, of 0]
      h1 sample_zones_resolvable sample_london
    by auto
qed

text \<open>
  C3. For each of the six canonical locations \<open>L\<close>, normalising \<open>L.lower()\<close>,
  \<open>L.upper()\<close> and \<open>L\<close> between leading and trailing whitespace (any whitespace, two
  spaces on each side in particular) returns the canonical key \<open>L\<close> itself. The database
  only has to agree with Unicode on ASCII.
\<close>

theorem normalize_location_canonical:
  assumes u: "ucd_ascii u"
    and L: "L \<in> set list_supported_locations"
    and pre: "list_all (is_whitespace u) pre"
    and post: "list_all (is_whitespace u) post"
  shows "normalize_location u (str_lower u L) = L \<and>
         normalize_location u (str_upper u L) = L \<and>
         normalize_location u (pre @ L @ post) = L"
proof -
  from canonical_sample_facts L
  have a: "is_ascii L" and ne: "L \<noteq> []" and h: "hd L < 128" and l: "last L < 128"
    and hs: "\<not> ascii_space (hd L)" and ls: "\<not> ascii_space (last L)"
    and n1: "normalize_location ucd_sample (map ascii_lower L) = L"
    and n2: "normalize_location ucd_sample (map ascii_upper L) = L"
    and n3: "normalize_location ucd_sample L = L"
    by blast+
  have "normalize_location u (str_lower u L) = normalize_location ucd_sample (map ascii_lower L)"
    using u a
    by (simp add: str_lower_ascii is_ascii_map_lower
        normalize_location_ascii_indep [OF u ucd_sample_ascii])
  then have lower: "normalize_location u (str_lower u L) = L"
    by (simp add: n1)
  have "normalize_location u (str_upper u L) = normalize_location ucd_sample (map ascii_upper L)"
    using u a
    by (simp add: str_upper_ascii is_ascii_map_upper
        normalize_location_ascii_indep [OF u ucd_sample_ascii])
  then have upper: "normalize_location u (str_upper u L) = L"
    by (simp add: n2)
  have hw: "\<not> is_whitespace u (hd L)" and lw: "\<not> is_whitespace u (last L)"
    using u h l hs ls by (simp_all add: ucd_ascii_def)
  have "str_strip u (pre @ L @ post) = L"
    using pre post ne hw lw by (rule str_strip_surrounded)
  moreover have "str_strip u L = L"
    using str_strip_surrounded [of u "[]" "[]" L] ne hw lw by simp
  ultimately have "normalize_location u (pre @ L @ post) = normalize_location u L"
    by (simp add: normalize_location_strip_eq)
  also have "\<dots> = L"
    using a by (simp add: normalize_location_ascii_indep [OF u ucd_sample_ascii] n3)
  finally show ?thesis
    using lower upper by simp
qed

theorem normalize_location_canonical_witness:
  "ucd_ascii ucd_sample \<and> str ''New York'' \<in> set list_supported_locations \<and>
   list_all (is_whitespace ucd_sample) (str ''  '') \<and>
   str_lower ucd_sample (str ''New York'') = str ''new york'' \<and>
   str_upper ucd_sample (str ''New York'') = str ''NEW YORK'' \<and>
   normalize_location ucd_sample (str ''new york'') = str ''New York'' \<and>
   normalize_location ucd_sample (str ''NEW YORK'') = str ''New York'' \<and>
   normalize_location ucd_sample (str ''  New York  '') = str ''New York''"
proof -
  have h1: "ucd_ascii ucd_sample"
    by (rule ucd_sample_ascii)
  have h2: "str ''New York'' \<in> set list_supported_locations"
    by code_simp
  have h3: "list_all (is_whitespace ucd_sample) (str ''  '')"
    by code_simp
  have e1: "str_lower ucd_sample (str ''New York'') = str ''new york''"
    by code_simp
  have e2: "str_upper ucd_sample (str ''New York'') = str ''NEW YORK''"
    by code_simp
  have e3: "str ''  '' @ str ''New York'' @ str ''  '' = str ''  New York  ''"
    by (simp add: str_def)
  show ?thesis
    using normalize_location_canonical [OF h1 h2 h3 h3] h1 h2 h3
    by (simp add: e1 e2 e3)
qed




text \<open>
  C5, as amended. When the normalised input is not a key of the Location Table,
  \<^verbatim>\<open>get_weather_at_location\<close> returns the unsupported-location message, and no
  exception; the clock is not read. This is the case for every ASCII input that matches
  no canonical name after trimming and ignoring case.
\<close>

theorem get_weather_unsupported:
  "(\<not> dict_contains LOCATIONS (normalize_location (unicode rt) location) \<longrightarrow>
      get_weather_at_location rt location n = (Inr unsupported_location_message, n)) \<and>
   (ucd_ascii (unicode rt) \<and> is_ascii location \<and> \<not> matches_canonical (unicode rt) location \<longrightarrow>
      get_weather_at_location rt location n = (Inr unsupported_location_message, n))"
proof (intro conjI impI)
  assume "\<not> dict_contains LOCATIONS (normalize_location (unicode rt) location)"
  then show "get_weather_at_location rt location n = (Inr unsupported_location_message, n)"
    by (rule get_weather_unsupported_eq)
next
  assume "ucd_ascii (unicode rt) \<and> is_ascii location \<and>
          \<not> matches_canonical (unicode rt) location"
  then have "\<not> dict_contains LOCATIONS (normalize_location (unicode rt) location)"
    using fallback_ascii(2) by blast
  then show "get_weather_at_location rt location n = (Inr unsupported_location_message, n)"
    by (rule get_weather_unsupported_eq)
qed

theorem get_weather_unsupported_witness:
  "\<not> dict_contains LOCATIONS (normalize_location (unicode sample_runtime) (str ''Atlantis'')) \<and>
   ucd_ascii (unicode sample_runtime) \<and> is_ascii (str ''Atlantis'') \<and>
   \<not> matches_canonical (unicode sample_runtime) (str ''Atlantis'') \<and>
   get_weather_at_location sample_runtime (str ''Atlantis'') 0 =
     (Inr (str ''Unsupported location. Use `list_supported_locations` to see valid options.''), 0)"
proof -
  have h1: "\<not> dict_contains LOCATIONS (normalize_location (unicode sample_runtime) (str ''Atlantis''))"
    by code_simp
  have h2: "ucd_ascii (unicode sample_runtime)"
    by (simp add: sample_runtime_def ucd_sample_ascii)
  have h3: "is_ascii (str ''Atlantis'')"
    by code_simp
  have h4: "\<not> matches_canonical (unicode sample_runtime) (str ''Atlantis'')"
    by code_simp
  show ?thesis
    using get_weather_unsupported [of sample_runtime "str ''Atlantis''" 0] h1 h2 h3 h4
    by (simp add: unsupported_location_message_def)
qed

text \<open>
  The claim as stated fails: \<open>seattle\<close> is not one of the six canonical names, and the
  server answers it with the weather line of Seattle.
\<close>

theorem get_weather_unsupported_counterexample:
  "str ''seattle'' \<notin> set list_supported_locations \<and>
   get_weather_at_location sample_runtime (str ''seattle'') 0 =
     (Inr (str ''Weather for Seattle at 2026-11-04 01:05 (night): Quiet, mostly clear skies and cooler air.''), 1) \<and>
   fst (get_weather_at_location sample_runtime (str ''seattle'') 0) \<noteq> Inr unsupported_location_message"
proof -
  have "str ''seattle'' \<notin> set list_supported_locations"
    by code_simp
  moreover have "fst (get_weather_at_location sample_runtime (str ''seattle'') 0)
                   \<noteq> Inr unsupported_location_message"
    by code_simp
  ultimately show ?thesis
    using sample_seattle by simp
qed



text \<open>
  C7. \<^verbatim>\<open>list_supported_locations\<close> returns the six canonical names in their declared
  order: Seattle, New York, London, Berlin, Tokyo, Sydney.
\<close>

theorem list_supported_locations_value:
  "list_supported_locations =
     [str ''Seattle'', str ''New York'', str ''London'', str ''Berlin'', str ''Tokyo'',
      str ''Sydney'']"
  by (simp add: list_supported_locations_def dict_keys_def LOCATIONS_def)

text \<open>
  C8. For every input string \<^verbatim>\<open>get_weather_at_location\<close> returns a string and no
  exception leaves it: an unsupported location and a time zone that does not resolve
  both come back as their message. So no input stops a batch: when the name
  \<^verbatim>\<open>get_weather_at_location\<close> is still bound to the function after its decoration,
  the batch returns one string for each input; and in any case an exception that leaves
  the batch is the \<^verbatim>\<open>TypeError\<close> of a tool object behind that name, whatever the
  inputs are.
\<close>

theorem get_weather_never_raises:
  "(\<exists>out n'. get_weather_at_location rt location n = (Inr out, n')) \<and>
   (\<not> dict_contains LOCATIONS (normalize_location (unicode rt) location) \<longrightarrow>
      get_weather_at_location rt location n = (Inr unsupported_location_message, n)) \<and>
   (\<forall>tz_name.
      map_of LOCATIONS (normalize_location (unicode rt) location) = Some tz_name \<and>
      pytz_timezone rt tz_name = None \<longrightarrow>
      get_weather_at_location rt location n = (Inr timezone_failure_message, n)) \<and>
   (mcp_tool rt = PlainFunction \<longrightarrow>
      (\<exists>outs n'. get_weather_for_multiple_locations rt locations n = (Inr outs, n') \<and>
         length outs = length locations)) \<and>
   (\<forall>e. fst (get_weather_for_multiple_locations rt locations n) = Inl e \<longrightarrow>
      mcp_tool rt = ToolObject \<and> e = TypeError)"
proof (intro conjI)
  show "\<exists>out n'. get_weather_at_location rt location n = (Inr out, n')"
    by (rule get_weather_returns)
  show "\<not> dict_contains LOCATIONS (normalize_location (unicode rt) location) \<longrightarrow>
      get_weather_at_location rt location n = (Inr unsupported_location_message, n)"
    by (simp add: get_weather_unsupported_eq)
  show "\<forall>tz_name.
      map_of LOCATIONS (normalize_location (unicode rt) location) = Some tz_name \<and>
      pytz_timezone rt tz_name = None \<longrightarrow>
      get_weather_at_location rt location n = (Inr timezone_failure_message, n)"
    using get_weather_timezone_failure_eq by blast
  show "mcp_tool rt = PlainFunction \<longrightarrow>
      (\<exists>outs n'. get_weather_for_multiple_locations rt locations n = (Inr outs, n') \<and>
         length outs = length locations)"
  proof
    assume p: "mcp_tool rt = PlainFunction"
    show "\<exists>outs n'. get_weather_for_multiple_locations rt locations n = (Inr outs, n') \<and>
         length outs = length locations"
      unfolding get_weather_for_multiple_locations_def
      using loop_results [OF p, of "[]" locations n] by auto
  qed
  show "\<forall>e. fst (get_weather_for_multiple_locations rt locations n) = Inl e \<longrightarrow>
      mcp_tool rt = ToolObject \<and> e = TypeError"
    using multiple_locations_raises_only_TypeError by blast
qed

theorem get_weather_never_raises_witness:
  "\<not> dict_contains LOCATIONS
       (normalize_location (unicode (sample_runtime\<lparr>pytz_timezone := (\<lambda>tz_name. None)\<rparr>)) (str ''Atlantis'')) \<and>
   get_weather_at_location (sample_runtime\<lparr>pytz_timezone := (\<lambda>tz_name. None)\<rparr>) (str ''Atlantis'') 0 =
     (Inr unsupported_location_message, 0) \<and>
   map_of LOCATIONS
       (normalize_location (unicode (sample_runtime\<lparr>pytz_timezone := (\<lambda>tz_name. None)\<rparr>)) (str ''London'')) =
     Some (str ''Europe/London'') \<and>
   pytz_timezone (sample_runtime\<lparr>pytz_timezone := (\<lambda>tz_name. None)\<rparr>) (str ''Europe/London'') = None \<and>
   get_weather_at_location (sample_runtime\<lparr>pytz_timezone := (\<lambda>tz_name. None)\<rparr>) (str ''London'') 0 =
     (Inr timezone_failure_message, 0) \<and>
   mcp_tool (sample_runtime\<lparr>pytz_timezone := (\<lambda>tz_name. None)\<rparr>) = PlainFunction \<and>
   get_weather_for_multiple_locations (sample_runtime\<lparr>pytz_timezone := (\<lambda>tz_name. None)\<rparr>)
     [str ''London'', str ''Atlantis'', str ''Tokyo''] 0 =
     (Inr [timezone_failure_message, unsupported_location_message, timezone_failure_message], 0) \<and>
   fst (get_weather_for_multiple_locations (sample_runtime\<lparr>mcp_tool := ToolObject\<rparr>)
     [str ''London'', str ''Atlantis'', str ''Tokyo''] 0) = Inl TypeError \<and>
   mcp_tool (sample_runtime\<lparr>mcp_tool := ToolObject\<rparr>) = ToolObject"
proof -
  let ?rt = "sample_runtime\<lparr>pytz_timezone := (\<lambda>tz_name. None)\<rparr>"
  let ?ls = "[str ''London'', str ''Atlantis'', str ''Tokyo'']"
  have h: "\<not> dict_contains LOCATIONS (normalize_location (unicode ?rt) (str ''Atlantis''))"
    by code_simp
  have z: "map_of LOCATIONS (normalize_location (unicode ?rt) (str ''London'')) =
           Some (str ''Europe/London'')"
    by code_simp
  have t: "pytz_timezone ?rt (str ''Europe/London'') = None"
    by simp
  have p: "mcp_tool ?rt = PlainFunction"
    by (simp add: sample_runtime_def)
  have e: "fst (get_weather_for_multiple_locations (sample_runtime\<lparr>mcp_tool := ToolObject\<rparr>) ?ls 0) =
           Inl TypeError"
    by (simp add: sample_batch_tool_object)
  show ?thesis
    using get_weather_never_raises [of ?rt "str ''Atlantis''" 0 ?ls]
      get_weather_never_raises [of ?rt "str ''London''" 0 ?ls]
      get_weather_never_raises [of "sample_runtime\<lparr>mcp_tool := ToolObject\<rparr>" "str ''London''" 0 ?ls]
      h z t p e sample_batch_no_zones
    by simp
qed

text \<open>
  C9. The answer of \<^verbatim>\<open>get_weather_at_location\<close> depends on the location and on
  the local time to the minute only: two calls with the same location, on the same
  Unicode and time zone databases, whose clock readings fall into the same local date,
  hour and minute of the resolved zone, return the same string.
\<close>

theorem get_weather_deterministic:
  assumes "unicode rt1 = unicode rt2" and "pytz_timezone rt1 = pytz_timezone rt2"
    and "\<forall>tz_name tz.
           map_of LOCATIONS (normalize_location (unicode rt1) location) = Some tz_name \<longrightarrow>
           pytz_timezone rt1 tz_name = Some tz \<longrightarrow>
           same_minute (tz (system_clock rt1 n1)) (tz (system_clock rt2 n2))"
  shows "fst (get_weather_at_location rt1 location n1) =
         fst (get_weather_at_location rt2 location n2)"
  using assms by (rule get_weather_same_minute)

theorem get_weather_deterministic_witness:
  "map_of LOCATIONS (normalize_location (unicode sample_runtime) (str ''  london '')) =
     Some (str ''Europe/London'') \<and>
   pytz_timezone sample_runtime (str ''Europe/London'') = Some (sample_zone 0) \<and>
   system_clock sample_runtime 0 \<noteq> system_clock sample_runtime 1 \<and>
   same_minute (sample_zone 0 (system_clock sample_runtime 0))
     (sample_zone 0 (system_clock sample_runtime 1)) \<and>
   fst (get_weather_at_location sample_runtime (str ''  london '') 0) =
     fst (get_weather_at_location sample_runtime (str ''  london '') 1)"
proof -
  have z: "map_of LOCATIONS (normalize_location (unicode sample_runtime) (str ''  london '')) =
           Some (str ''Europe/London'')"
    by code_simp
  have t: "pytz_timezone sample_runtime (str ''Europe/London'') = Some (sample_zone 0)"
    by (simp add: sample_runtime_def sample_timezone_def str_def)
  have c: "system_clock sample_runtime 0 \<noteq> system_clock sample_runtime 1"
    by (simp add: sample_runtime_def)
  have m: "same_minute (sample_zone 0 (system_clock sample_runtime 0))
             (sample_zone 0 (system_clock sample_runtime 1))"
    by (simp add: same_minute_def sample_zone_def sample_runtime_def)
  have h: "\<forall>tz_name tz.
           map_of LOCATIONS (normalize_location (unicode sample_runtime) (str ''  london '')) =
             Some tz_name \<longrightarrow>
           pytz_timezone sample_runtime tz_name = Some tz \<longrightarrow>
           same_minute (tz (system_clock sample_runtime 0)) (tz (system_clock sample_runtime 1))"
    using z t m by auto
  show ?thesis
    using get_weather_deterministic [of sample_runtime sample_runtime "str ''  london ''" 0 1, OF refl refl h]
      z t c m
    by simp
qed

text \<open>
  C10. Two inputs that are equal after trimming and lower-casing are normalised to the
  same result. The result carries no leading or trailing whitespace: trimming it again
  changes nothing. The first part holds for every database; the second one uses that
  the database agrees with Unicode on ASCII (for the keys) and that case mappings do not
  produce whitespace.
\<close>

theorem normalize_location_trim_case_insensitive:
  "(str_lower u (str_strip u s) = str_lower u (str_strip u t) \<longrightarrow>
      normalize_location u s = normalize_location u t) \<and>
   (ucd_ascii u \<and> ucd_case_keeps_nonspace u \<longrightarrow>
      str_strip u (normalize_location u s) = normalize_location u s)"
proof (intro conjI impI)
  assume "str_lower u (str_strip u s) = str_lower u (str_strip u t)"
  then show "normalize_location u s = normalize_location u t"
    by (simp add: normalize_location_def)
next
  assume a: "ucd_ascii u \<and> ucd_case_keeps_nonspace u"
  show "str_strip u (normalize_location u s) = normalize_location u s"
  proof (cases "matches_canonical u s")
    case True
    then have "normalize_location u s \<in> set (dict_keys LOCATIONS)"
      by (rule normalize_location_match)
    with a show ?thesis
      by (simp add: canonical_strip_fixed)
  next
    case False
    with a show ?thesis
      by (simp add: normalize_location_no_match title_lower_strip_fixed)
  qed
qed

theorem normalize_location_trim_case_insensitive_witness:
  "str_lower ucd_sample (str_strip ucd_sample (str ''  LONDON '')) =
     str_lower ucd_sample (str_strip ucd_sample (str ''london'')) \<and>
   normalize_location ucd_sample (str ''  LONDON '') = normalize_location ucd_sample (str ''london'') \<and>
   ucd_ascii ucd_sample \<and> ucd_case_keeps_nonspace ucd_sample \<and>
   str_strip ucd_sample (normalize_location ucd_sample (str ''  LONDON '')) =
     normalize_location ucd_sample (str ''  LONDON '')"
proof -
  have h1: "str_lower ucd_sample (str_strip ucd_sample (str ''  LONDON '')) =
            str_lower ucd_sample (str_strip ucd_sample (str ''london''))"
    by code_simp
  have h2: "ucd_ascii ucd_sample \<and> ucd_case_keeps_nonspace ucd_sample"
    using ucd_sample_ascii ucd_sample_keeps_nonspace by simp
  show ?thesis
    using normalize_location_trim_case_insensitive
            [of ucd_sample "str ''  LONDON ''" "str ''london''"] h1 h2
    by blast
qed

end
